theory Spec2Isabelle
  imports
    Main
    "HOL-Library.Char_ord"
    "HOL-Library.List_Lexorder"
    "HOL-Library.Product_Lexorder"
    "HOL-Library.Multiset"
    "HOL-Library.AList"
begin

section \<open>Data model\<close>

text \<open>
  The objects the front end receives from the API, with the fields the modelled code
  reads. A JavaScript object has an identity besides its contents: \<open>ref\<close> is that
  identity (two values are the same object exactly when their \<open>ref\<close> is the same).
  A project's \<open>firstEvent\<close> is a date string, or \<open>null\<close> (\<open>None\<close>) when the
  project has not received an event.
\<close>

record project =
  ref :: nat
  project_id :: string
  name :: string
  isBookmarked :: bool
  firstEvent :: "string option"

record team =
  slug :: string
  projects :: "project list"

record organization =
  org_slug :: string
  access :: "string list"

subsection \<open>Structural equality (lodash \<open>isEqual\<close>)\<close>

text \<open>
  \<open>isEqual\<close> compares two values by their contents, recursively, and never by
  identity, so the \<open>ref\<close> of an object takes no part in it.
\<close>

definition project_value :: "project \<Rightarrow> string \<times> string \<times> bool \<times> string option" where
  "project_value p = (project_id p, name p, isBookmarked p, firstEvent p)"

definition team_value :: "team \<Rightarrow> string \<times> (string \<times> string \<times> bool \<times> string option) list" where
  "team_value t = (slug t, map project_value (projects t))"

definition isEqual :: "team list \<Rightarrow> team list \<Rightarrow> bool" where
  "isEqual ts ts' = (map team_value ts = map team_value ts')"

section \<open>Promises\<close>

text \<open>
  A promise is pending until it settles, once, as fulfilled with a value or rejected with
  a reason. \<open>Promise.all\<close> of a list is fulfilled with the list of values when every
  promise of the list is fulfilled, rejected as soon as one of them is rejected, and
  pending otherwise. (The reason it carries is the one of the promise that rejected
  first; no modelled code reads it, and the model takes the leftmost.)
\<close>

datatype 'a promise = Pending | Fulfilled 'a | Rejected string

datatype 'a outcome = Resolve 'a | Reject string

fun settled :: "'a outcome \<Rightarrow> 'a promise" where
  "settled (Resolve v) = Fulfilled v"
| "settled (Reject e) = Rejected e"

fun promise_all :: "'a promise list \<Rightarrow> 'a list promise" where
  "promise_all [] = Fulfilled []"
| "promise_all (Rejected e # ps) = Rejected e"
| "promise_all (Pending # ps) =
     (case promise_all ps of Rejected e \<Rightarrow> Rejected e | _ \<Rightarrow> Pending)"
| "promise_all (Fulfilled v # ps) =
     (case promise_all ps of
        Fulfilled vs \<Rightarrow> Fulfilled (v # vs)
      | Pending \<Rightarrow> Pending
      | Rejected e \<Rightarrow> Rejected e)"

section \<open>The team-projects wrapper with a loading flag\<close>

text \<open>
  \<open>withTeamProjects\<close> in the variant that injects \<open>loadingProjects\<close>. The component
  instance holds its current props and state; \<open>joins\<close> are the
  \<open>Promise.all(promises).then(...)\<close> it has registered, each with the promises of its
  requests, in the order of the team list; \<open>sent\<close> is the log of the requests handed
  to \<open>api.requestPromise\<close>.
\<close>

record props =
  organization_slug :: string
  teams :: "team list"
  loadingTeams :: bool

record state =
  st_projects :: "project list"
  loadingProjects :: bool

record wrapper =
  w_props :: props
  w_state :: state
  joins :: "project list promise list list"
  sent :: "string list"

definition getTeamsProjectEndpoints :: "string \<Rightarrow> team list \<Rightarrow> string list" where
  "getTeamsProjectEndpoints org ts =
     map (\<lambda>t. ''/teams/'' @ org @ ''/'' @ slug t @ ''/projects/'') ts"

definition fetchProjects :: "wrapper \<Rightarrow> wrapper" where
  "fetchProjects w =
     (let w1 = w\<lparr>w_state := (w_state w)\<lparr>loadingProjects := True\<rparr>\<rparr>;
          endpoints =
            getTeamsProjectEndpoints (organization_slug (w_props w)) (teams (w_props w));
          w2 = w1\<lparr>sent := sent w1 @ endpoints\<rparr>;
          promises = map (\<lambda>_. Pending) endpoints
      in if length promises > 0 then w2\<lparr>joins := joins w2 @ [promises]\<rparr> else w2)"

definition componentDidMount :: "wrapper \<Rightarrow> wrapper" where
  "componentDidMount w = (if \<not> loadingTeams (w_props w) then fetchProjects w else w)"

definition componentDidUpdate :: "props \<Rightarrow> wrapper \<Rightarrow> wrapper" where
  "componentDidUpdate prevProps w =
     (if \<not> loadingTeams (w_props w) \<and> \<not> isEqual (teams prevProps) (teams (w_props w))
      then fetchProjects w else w)"

definition construct :: "props \<Rightarrow> wrapper" where
  "construct p =
     \<lparr>w_props = p, w_state = \<lparr>st_projects = [], loadingProjects = True\<rparr>,
      joins = [], sent = []\<rparr>"

definition mount :: "props \<Rightarrow> wrapper" where
  "mount p = componentDidMount (construct p)"

text \<open>
  What happens to a mounted instance: the parent renders it with new props
  (\<open>Update\<close>), or request \<open>i\<close> of join \<open>k\<close> settles (\<open>Settle\<close>). When a request
  settles and makes its join fulfilled, the callback given to \<open>then\<close> runs; a rejected
  join has no handler. A state update alone also calls \<open>componentDidUpdate\<close>, with
  \<open>prevProps\<close> the very props of the instance, for which the guard of
  \<open>componentDidUpdate\<close> is false; it is not an event of its own.
\<close>

datatype event = Update props | Settle nat nat "project list outcome"

definition settle :: "nat \<Rightarrow> nat \<Rightarrow> project list outcome \<Rightarrow> wrapper \<Rightarrow> wrapper" where
  "settle k i out w =
     (if k < length (joins w) \<and> i < length (joins w ! k) \<and> joins w ! k ! i = Pending
      then
        (let ps = (joins w ! k)[i := settled out];
             w' = w\<lparr>joins := (joins w)[k := ps]\<rparr>
         in case promise_all ps of
              Fulfilled vs \<Rightarrow>
                w'\<lparr>w_state := \<lparr>st_projects = concat vs, loadingProjects = False\<rparr>\<rparr>
            | _ \<Rightarrow> w')
      else w)"

fun step :: "event \<Rightarrow> wrapper \<Rightarrow> wrapper" where
  "step (Update p) w = componentDidUpdate (w_props w) (w\<lparr>w_props := p\<rparr>)"
| "step (Settle k i out) w = settle k i out w"

fun run :: "event list \<Rightarrow> wrapper \<Rightarrow> wrapper" where
  "run [] w = w"
| "run (e # es) w = run es (step e w)"

section \<open>The team-projects wrapper without a loading flag\<close>

text \<open>
  The other \<open>withTeamProjects\<close>: its state is the project list alone, it reads no
  \<open>loadingTeams\<close>, it fetches on every mount, and \<open>componentDidUpdate\<close> compares the
  props objects themselves (\<open>prevProps !== this.props\<close>). \<open>p0_ref\<close> is the identity
  of a props object. After a state update alone \<open>prevProps\<close> is the props object of
  the instance itself, and nothing is fetched.
\<close>

record props0 =
  p0_ref :: nat
  p0_organization_slug :: string
  p0_teams :: "team list"

record wrapper0 =
  w0_props :: props0
  w0_projects :: "project list"
  joins0 :: "project list promise list list"
  sent0 :: "string list"

definition fetchProjects0 :: "wrapper0 \<Rightarrow> wrapper0" where
  "fetchProjects0 w =
     (let endpoints =
            getTeamsProjectEndpoints (p0_organization_slug (w0_props w)) (p0_teams (w0_props w));
          w1 = w\<lparr>sent0 := sent0 w @ endpoints\<rparr>;
          promises = map (\<lambda>_. Pending) endpoints
      in if length promises > 0 then w1\<lparr>joins0 := joins0 w1 @ [promises]\<rparr> else w1)"

definition componentDidMount0 :: "wrapper0 \<Rightarrow> wrapper0" where
  "componentDidMount0 w = fetchProjects0 w"

definition componentDidUpdate0 :: "props0 \<Rightarrow> wrapper0 \<Rightarrow> wrapper0" where
  "componentDidUpdate0 prevProps w =
     (if p0_ref prevProps \<noteq> p0_ref (w0_props w) then fetchProjects0 w else w)"

definition mount0 :: "props0 \<Rightarrow> wrapper0" where
  "mount0 p =
     componentDidMount0 \<lparr>w0_props = p, w0_projects = [], joins0 = [], sent0 = []\<rparr>"

definition update0 :: "props0 \<Rightarrow> wrapper0 \<Rightarrow> wrapper0" where
  "update0 p w = componentDidUpdate0 (w0_props w) (w\<lparr>w0_props := p\<rparr>)"

definition settle0 :: "nat \<Rightarrow> nat \<Rightarrow> project list outcome \<Rightarrow> wrapper0 \<Rightarrow> wrapper0" where
  "settle0 k i out w =
     (if k < length (joins0 w) \<and> i < length (joins0 w ! k) \<and> joins0 w ! k ! i = Pending
      then
        (let ps = (joins0 w ! k)[i := settled out];
             w' = w\<lparr>joins0 := (joins0 w)[k := ps]\<rparr>
         in case promise_all ps of
              Fulfilled vs \<Rightarrow> w'\<lparr>w0_projects := concat vs\<rparr>
            | _ \<Rightarrow> w')
      else w)"

section \<open>The teams wrapper and the team section\<close>

text \<open>
  \<open>withUsersTeams\<close> sends one request when it mounts and stores the teams when the
  request is fulfilled; its state is the team list alone, and the promise has no
  rejection handler.
\<close>

record users_teams =
  ut_teams :: "team list"
  ut_request :: "team list promise"
  ut_sent :: "string list"

definition getUsersTeamsEndpoint :: "string \<Rightarrow> string" where
  "getUsersTeamsEndpoint org = ''/organizations/'' @ org @ ''/teams/''"

definition fetchTeams :: "string \<Rightarrow> users_teams \<Rightarrow> users_teams" where
  "fetchTeams org u = u\<lparr>ut_request := Pending, ut_sent := ut_sent u @ [getUsersTeamsEndpoint org]\<rparr>"

definition mountUsersTeams :: "string \<Rightarrow> users_teams" where
  "mountUsersTeams org = fetchTeams org \<lparr>ut_teams = [], ut_request = Pending, ut_sent = []\<rparr>"

definition fetchTeams_settled :: "team list outcome \<Rightarrow> users_teams \<Rightarrow> users_teams" where
  "fetchTeams_settled out u =
     (if ut_request u = Pending
      then (case out of
              Resolve data \<Rightarrow> u\<lparr>ut_teams := data, ut_request := Fulfilled data\<rparr>
            | Reject e \<Rightarrow> u\<lparr>ut_request := Rejected e\<rparr>)
      else u)"

text \<open>
  \<open>TeamSection\<close> fetches the projects of its team when it mounts. \<open>fetchData\<close> runs
  up to its \<open>await\<close>; \<open>fetchData_resumed\<close> is the rest of it, run when the request
  settles: the \<open>try\<close> block stores the projects and clears \<open>loading\<close>, the \<open>catch\<close>
  block writes the error to the console. \<open>console\<close> is what \<open>console.error\<close> has
  been given.
\<close>

record team_section =
  loading :: bool
  ts_projects :: "project list"
  ts_request :: "project list promise"
  ts_sent :: "string list"
  console :: "string list"

definition fetchData :: "string \<Rightarrow> team \<Rightarrow> team_section \<Rightarrow> team_section" where
  "fetchData orgId t s =
     s\<lparr>loading := True, ts_request := Pending,
       ts_sent := ts_sent s @ [''/teams/'' @ orgId @ ''/'' @ slug t @ ''/projects/'']\<rparr>"

definition mountTeamSection :: "string \<Rightarrow> team \<Rightarrow> team_section" where
  "mountTeamSection orgId t =
     fetchData orgId t
       \<lparr>loading = True, ts_projects = [], ts_request = Pending, ts_sent = [], console = []\<rparr>"

definition fetchData_resumed :: "project list outcome \<Rightarrow> team_section \<Rightarrow> team_section" where
  "fetchData_resumed out s =
     (if ts_request s = Pending
      then (case out of
              Resolve ps \<Rightarrow> s\<lparr>loading := False, ts_projects := ps, ts_request := Fulfilled ps\<rparr>
            | Reject err \<Rightarrow> s\<lparr>console := console s @ [err], ts_request := Rejected err\<rparr>)
      else s)"

section \<open>Library functions the dashboard calls\<close>

text \<open>
  A JavaScript object with string keys, and a \<open>Map\<close>, as an association list with
  distinct keys, in the order the keys were first set; setting a key again replaces its
  value in place. \<open>Object.keys\<close> lists integer-like keys first; the one caller of
  \<open>Object_keys\<close> sorts its result, so the listing order is not modelled. The default
  \<open>Array.prototype.sort\<close> orders strings by their code units, which for the byte
  strings here is the lexicographic order of \<open>char list\<close>.
\<close>

type_synonym 'v object = "(string \<times> 'v) list"

definition fromEntries :: "(string \<times> 'v) list \<Rightarrow> 'v object" where
  "fromEntries entries = foldl (\<lambda>obj (k, v). AList.update k v obj) [] entries"

definition Object_keys :: "'v object \<Rightarrow> string list" where
  "Object_keys obj = map fst obj"

definition get :: "'v object \<Rightarrow> string \<Rightarrow> 'v option" where
  "get obj k = map_of obj k"

text \<open>
  lodash, with the interface of its version 4: \<open>flatten\<close> removes one level of
  nesting. \<open>uniq\<close> has one parameter, the array: it keeps the first occurrence of each
  element, comparing elements with \<open>SameValueZero\<close>, which for two objects is
  identity. A further argument in a call of \<open>uniq\<close> is not read (the function that
  takes a property name is \<open>uniqBy\<close>); \<open>uniq\<close> below takes it and drops it, so that
  the calls read as in the source. The objects of a parsed response are all different
  objects.
\<close>

definition flatten :: "'a list list \<Rightarrow> 'a list" where
  "flatten xss = concat xss"

fun baseUniq :: "project list \<Rightarrow> project list \<Rightarrow> project list" where
  "baseUniq result [] = result"
| "baseUniq result (x # xs) =
     (if ref x \<in> set (map ref result) then baseUniq result xs
      else baseUniq (result @ [x]) xs)"

definition uniq :: "project list \<Rightarrow> string \<Rightarrow> project list" where
  "uniq array unread = baseUniq [] array"

text \<open>
  Modelled from the spec: \<open>sortProjects\<close> of \<open>app/utils\<close> is not among the source
  files. The spec gives it as the shared project sort, a fixed total order
  \<open>(isBookmarked desc, name asc)\<close> that is stable: bookmarked projects first, then by
  name.
\<close>

definition sortProjects :: "project list \<Rightarrow> project list" where
  "sortProjects ps = sort_key (\<lambda>p. (\<not> isBookmarked p, name p)) ps"

definition project_le :: "project \<Rightarrow> project \<Rightarrow> bool" where
  "project_le p q =
     (if isBookmarked p = isBookmarked q then name p \<le> name q else isBookmarked p)"

section \<open>The dashboard\<close>

text \<open>
  What \<open>render\<close> returns: the loading indicator, the error alert, the empty-state
  message with the projects it is given, or the fragment of the normal content: the
  header with the Create Project button (when there is a project), one lazily mounted
  \<open>TeamSection\<close> per team slug, in order, and whether the resources panel follows
  them. Reading \<open>team.slug\<close> of an undefined team throws a \<open>TypeError\<close>.
\<close>

datatype error = TypeError

datatype title = TeamLink string | IdBadge

record projects_header =
  disabled :: bool
  link_to :: string

record section_props =
  sec_key :: string
  sec_orgId :: string
  sec_team :: "team option"
  sec_showBorder :: bool
  sec_title :: title
  sec_projects :: "project list option"

datatype element =
    LoadingIndicator
  | Alert
  | NoProjectMessage "project list"
  | Fragment "projects_header option" "section_props list" bool

definition truthy :: "string option \<Rightarrow> bool" where
  "truthy v = (case v of None \<Rightarrow> False | Some s \<Rightarrow> s \<noteq> [])"

fun sequence :: "(error + 'a) list \<Rightarrow> error + 'a list" where
  "sequence [] = Inr []"
| "sequence (Inl e # rs) = Inl e"
| "sequence (Inr x # rs) = (case sequence rs of Inl e \<Rightarrow> Inl e | Inr xs \<Rightarrow> Inr (x # xs))"

definition renderTeamSection ::
  "organization \<Rightarrow> string \<Rightarrow> team object \<Rightarrow> project list object \<Rightarrow> string list
     \<Rightarrow> nat \<times> string \<Rightarrow> error + section_props" where
  "renderTeamSection org orgId teamsMap projectsByTeam teamSlugs = (\<lambda>(index, slug').
     (let hasTeamAdminAccess = (''team:admin'' \<in> set (access org));
          showBorder = (int index \<noteq> int (length teamSlugs) - 1);
          team = get teamsMap slug';
          sec = \<lparr>sec_key = slug', sec_orgId = orgId, sec_team = team,
                 sec_showBorder = showBorder, sec_title = IdBadge,
                 sec_projects = get projectsByTeam slug'\<rparr>
      in if hasTeamAdminAccess
         then (case team of
                 None \<Rightarrow> Inl TypeError
               | Some t \<Rightarrow>
                   Inr (sec\<lparr>sec_title :=
                     TeamLink (''/settings/'' @ org_slug org @ ''/teams/'' @ slug t @ ''/'')\<rparr>))
         else Inr sec))"

definition renderContent ::
  "organization \<Rightarrow> string \<Rightarrow> team list \<Rightarrow> project list \<Rightarrow> project list object
     \<Rightarrow> string list \<Rightarrow> bool \<Rightarrow> error + element" where
  "renderContent org orgId ts projs projectsByTeam teamSlugs showResources =
     (let canCreateProjects = (''project:admin'' \<in> set (access org));
          teamsMap = fromEntries (map (\<lambda>teamObj. (slug teamObj, teamObj)) ts);
          hdr = (if length projs > 0
                 then Some \<lparr>disabled = \<not> canCreateProjects,
                            link_to = ''/organizations/'' @ org_slug org @ ''/projects/new/''\<rparr>
                 else None)
      in case sequence (map (renderTeamSection org orgId teamsMap projectsByTeam teamSlugs)
                          (enumerate 0 teamSlugs)) of
           Inl e \<Rightarrow> Inl e
         | Inr secs \<Rightarrow> Inr (Fragment hdr secs showResources))"

definition showResources :: "project list \<Rightarrow> bool" where
  "showResources projs = (case projs of [p] \<Rightarrow> \<not> truthy (firstEvent p) | _ \<Rightarrow> False)"

subsection \<open>The dashboard over teams that embed their projects\<close>

record dashboard_props =
  d_teams :: "team list"
  d_organization :: organization
  d_loadingTeams :: bool
  d_error :: "string option"
  d_orgId :: string

definition projectsByTeam :: "team list \<Rightarrow> project list object" where
  "projectsByTeam ts =
     fromEntries (map (\<lambda>teamObj. (slug teamObj, sortProjects (projects teamObj))) ts)"

definition allProjects :: "team list \<Rightarrow> project list" where
  "allProjects ts = uniq (flatten (map (\<lambda>teamObj. projects teamObj) ts)) ''id''"

definition teamSlugs :: "'v object \<Rightarrow> string list" where
  "teamSlugs obj = sort (Object_keys obj)"

definition render_teamsForUser :: "dashboard_props \<Rightarrow> error + element" where
  "render_teamsForUser p =
     (if d_loadingTeams p then Inr LoadingIndicator
      else if d_error p \<noteq> None then Inr Alert
      else
        (let projs = allProjects (d_teams p);
             favorites = filter isBookmarked projs;
             showEmptyMessage = (length projs = 0 \<and> length favorites = 0)
         in if showEmptyMessage then Inr (NoProjectMessage projs)
            else renderContent (d_organization p) (d_orgId p) (d_teams p) projs
                   (projectsByTeam (d_teams p)) (teamSlugs (projectsByTeam (d_teams p)))
                   (showResources projs)))"

subsection \<open>The dashboard over separately fetched projects\<close>

text \<open>
  Here the projects come from the team-projects wrapper, and the grouping is done by
  \<open>getProjectsByTeams\<close>, which is not among the source files: the \<open>projectsByTeam\<close>
  it returns is a parameter, \<open>grouping\<close>, as is the \<open>isSuperuser\<close> flag read from
  the configuration store.
\<close>

record dashboard_props2 =
  b_teams :: "team list"
  b_projects :: "project list"
  b_organization :: organization
  b_loadingProjects :: bool
  b_orgId :: string

definition render_teamProjects ::
  "(team list \<Rightarrow> project list \<Rightarrow> bool \<Rightarrow> project list object) \<Rightarrow> bool
     \<Rightarrow> dashboard_props2 \<Rightarrow> error + element" where
  "render_teamProjects grouping isSuperuser p =
     (if b_loadingProjects p then Inr LoadingIndicator
      else
        (let sortedProjects = sortProjects (b_projects p);
             byTeam = grouping (b_teams p) sortedProjects isSuperuser;
             favorites = filter isBookmarked (b_projects p);
             showEmptyMessage = (length (teamSlugs byTeam) = 0 \<and> length favorites = 0)
         in if showEmptyMessage then Inr (NoProjectMessage (b_projects p))
            else renderContent (b_organization p) (b_orgId p) (b_teams p) (b_projects p)
                   byTeam (teamSlugs byTeam) (showResources (b_projects p))))"

text \<open>The install-prompt banner computes the same flattened collection.\<close>

datatype banner = NoBanner | InstallPromptBanner "project list"

definition render_banner :: "dashboard_props \<Rightarrow> banner" where
  "render_banner p =
     (if d_loadingTeams p \<or> d_error p \<noteq> None then NoBanner
      else InstallPromptBanner
             (uniq (flatten (map (\<lambda>team. projects team) (d_teams p))) ''id''))"

subsection \<open>The exported screen over fetched projects\<close>

text \<open>
  The dashboard over fetched projects is exported as
  \<open>withUsersTeams(withTeamProjects(OrganizationDashboard))\<close>. Each wrapper renders the
  component it wraps with its own props and with the values of its state: the teams
  wrapper adds \<open>teams\<close> (and no \<open>loadingTeams\<close>: the team-projects wrapper reads
  \<open>undefined\<close>, which counts as false), the team-projects wrapper adds \<open>projects\<close>
  and \<open>loadingProjects\<close>.
\<close>

definition withUsersTeams_render :: "string \<Rightarrow> users_teams \<Rightarrow> props" where
  "withUsersTeams_render org u =
     \<lparr>organization_slug = org, teams = ut_teams u, loadingTeams = False\<rparr>"

definition withTeamProjects_render :: "organization \<Rightarrow> string \<Rightarrow> wrapper \<Rightarrow> dashboard_props2" where
  "withTeamProjects_render org orgId w =
     \<lparr>b_teams = teams (w_props w), b_projects = st_projects (w_state w),
      b_organization = org, b_loadingProjects = loadingProjects (w_state w),
      b_orgId = orgId\<rparr>"

definition screen_teamProjects ::
  "(team list \<Rightarrow> project list \<Rightarrow> bool \<Rightarrow> project list object) \<Rightarrow> bool
     \<Rightarrow> organization \<Rightarrow> string \<Rightarrow> wrapper \<Rightarrow> error + element" where
  "screen_teamProjects grouping isSuperuser org orgId w =
     render_teamProjects grouping isSuperuser (withTeamProjects_render org orgId w)"

section \<open>Predicates and sample inputs of the statements\<close>

fun fulfilled :: "'a promise \<Rightarrow> bool" where
  "fulfilled (Fulfilled v) = True"
| "fulfilled Pending = False"
| "fulfilled (Rejected e) = False"

fun rejected :: "'a promise \<Rightarrow> bool" where
  "rejected (Rejected e) = True"
| "rejected Pending = False"
| "rejected (Fulfilled v) = False"

text \<open>Runs in which every new props object has an empty team list.\<close>

fun update_teams_empty :: "event \<Rightarrow> bool" where
  "update_teams_empty (Update p) = (teams p = [])"
| "update_teams_empty (Settle k i out) = True"

text \<open>Runs in which every new props object still has \<open>loadingTeams\<close> set.\<close>

fun update_while_loading :: "event \<Rightarrow> bool" where
  "update_while_loading (Update p) = loadingTeams p"
| "update_while_loading (Settle k i out) = True"

text \<open>Runs in which requests settle and the props stay as they are.\<close>

fun is_Settle :: "event \<Rightarrow> bool" where
  "is_Settle (Update p) = False"
| "is_Settle (Settle k i out) = True"

definition idle :: "wrapper \<Rightarrow> bool" where
  "idle w = (teams (w_props w) = [] \<and> joins w = [] \<and> sent w = []
     \<and> loadingProjects (w_state w))"

definition quiet :: "wrapper \<Rightarrow> bool" where
  "quiet w = (joins w = [] \<and> sent w = [] \<and> loadingProjects (w_state w))"

definition completed :: "wrapper \<Rightarrow> bool" where
  "completed w = list_ex (\<lambda>ps. fulfilled (promise_all ps)) (joins w)"

text \<open>What is to be seen in a rendered dashboard: the keys of its team sections, and
  whether it has the resources panel.\<close>

definition section_keys :: "error + element \<Rightarrow> string list" where
  "section_keys r = (case r of Inr (Fragment hdr secs res) \<Rightarrow> map sec_key secs | _ \<Rightarrow> [])"

definition shows_resources :: "error + element \<Rightarrow> bool" where
  "shows_resources r = (case r of Inr (Fragment hdr secs res) \<Rightarrow> res | _ \<Rightarrow> False)"

text \<open>
  The sample data: two teams with one project each, and the same project embedded a
  second time, as another object, under a third team.
\<close>

definition project_Z :: project where
  "project_Z = \<lparr>ref = 1, project_id = ''1'', name = ''Z'', isBookmarked = False,
     firstEvent = None\<rparr>"

definition project_A :: project where
  "project_A = \<lparr>ref = 2, project_id = ''2'', name = ''A'', isBookmarked = True,
     firstEvent = Some ''2019-07-01T00:00:00Z''\<rparr>"

definition project_Z_again :: project where
  "project_Z_again = \<lparr>ref = 3, project_id = ''1'', name = ''Z'', isBookmarked = False,
     firstEvent = None\<rparr>"

definition team_a :: team where
  "team_a = \<lparr>slug = ''a'', projects = [project_Z]\<rparr>"

definition team_b :: team where
  "team_b = \<lparr>slug = ''b'', projects = [project_A]\<rparr>"

definition team_c :: team where
  "team_c = \<lparr>slug = ''c'', projects = [project_Z_again]\<rparr>"

definition team_d :: team where
  "team_d = \<lparr>slug = ''d'', projects = [project_Z, project_A]\<rparr>"

definition team_twice :: team where
  "team_twice = \<lparr>slug = ''a'', projects = [project_Z, project_Z_again]\<rparr>"

definition team_a_later :: team where
  "team_a_later = \<lparr>slug = ''a'', projects = [project_Z, project_A]\<rparr>"

definition acme :: organization where
  "acme = \<lparr>org_slug = ''acme'', access = [''team:admin'', ''project:read'']\<rparr>"

definition dashboard_bd :: dashboard_props where
  "dashboard_bd = \<lparr>d_teams = [team_d, team_b], d_organization = acme,
     d_loadingTeams = False, d_error = None, d_orgId = ''acme''\<rparr>"

definition dashboard_a :: dashboard_props where
  "dashboard_a = \<lparr>d_teams = [team_a], d_organization = acme,
     d_loadingTeams = False, d_error = None, d_orgId = ''acme''\<rparr>"

definition dashboard_ac :: dashboard_props where
  "dashboard_ac = \<lparr>d_teams = [team_a, team_c], d_organization = acme,
     d_loadingTeams = False, d_error = None, d_orgId = ''acme''\<rparr>"

definition dashboard_none :: dashboard_props where
  "dashboard_none = \<lparr>d_teams = [], d_organization = acme,
     d_loadingTeams = False, d_error = None, d_orgId = ''acme''\<rparr>"

text \<open>
  A grouping for the dashboard over fetched projects, to state witnesses with: one entry
  per team, with the fetched projects that the team embeds.
\<close>

definition entry_per_team :: "team list \<Rightarrow> project list \<Rightarrow> bool \<Rightarrow> project list object" where
  "entry_per_team ts ps isSuperuser =
     fromEntries
       (map (\<lambda>t. (slug t, filter (\<lambda>p. project_id p \<in> set (map project_id (projects t))) ps)) ts)"

definition dashboard2_bd :: dashboard_props2 where
  "dashboard2_bd = \<lparr>b_teams = [team_d, team_b], b_projects = [project_Z, project_A],
     b_organization = acme, b_loadingProjects = False, b_orgId = ''acme''\<rparr>"

definition props_ab :: props where
  "props_ab = \<lparr>organization_slug = ''acme'', teams = [team_a, team_b], loadingTeams = False\<rparr>"

definition team_a_again :: team where
  "team_a_again = \<lparr>slug = ''a'', projects = [project_Z\<lparr>ref := 7\<rparr>]\<rparr>"

definition props_ab_again :: props where
  "props_ab_again =
     \<lparr>organization_slug = ''acme'', teams = [team_a_again, team_b], loadingTeams = False\<rparr>"

definition props_none :: props where
  "props_none = \<lparr>organization_slug = ''acme'', teams = [], loadingTeams = False\<rparr>"

definition props_ac :: props where
  "props_ac = \<lparr>organization_slug = ''acme'', teams = [team_a, team_c], loadingTeams = False\<rparr>"

definition props0_ab :: props0 where
  "props0_ab = \<lparr>p0_ref = 1, p0_organization_slug = ''acme'', p0_teams = [team_a, team_b]\<rparr>"

definition props0_ab_again :: props0 where
  "props0_ab_again =
     \<lparr>p0_ref = 2, p0_organization_slug = ''acme'', p0_teams = [team_a_again, team_b]\<rparr>"

text \<open>
  The exported screen for an organization without teams: the team-projects wrapper
  mounts with the empty list the teams wrapper starts with, the teams request is
  fulfilled with no team, and the team-projects wrapper is updated.
\<close>

definition no_teams_run :: wrapper where
  "no_teams_run =
     run [Update (withUsersTeams_render ''acme''
            (fetchTeams_settled (Resolve []) (mountUsersTeams ''acme'')))]
       (mount (withUsersTeams_render ''acme'' (mountUsersTeams ''acme'')))"

text \<open>
  The exported screen for the teams \<open>a\<close> and \<open>c\<close>, which embed the same project:
  both project requests are fulfilled.
\<close>

definition two_teams_run :: wrapper where
  "two_teams_run =
     run [Settle 0 0 (Resolve [project_Z]), Settle 0 1 (Resolve [project_Z_again])]
       (mount props_ac)"

definition props0_none :: props0 where
  "props0_none = \<lparr>p0_ref = 0, p0_organization_slug = ''acme'', p0_teams = []\<rparr>"

definition props_loading :: props where
  "props_loading = \<lparr>organization_slug = ''acme'', teams = [], loadingTeams = True\<rparr>"

definition props_loading_a :: props where
  "props_loading_a = \<lparr>organization_slug = ''acme'', teams = [team_a], loadingTeams = True\<rparr>"

section \<open>Properties of the team-projects wrapper with a loading flag\<close>

lemma isEqual_refl: "isEqual ts ts"
  by (simp add: isEqual_def)

lemma isEqual_Nil: "isEqual [] ts = (ts = [])"
  by (auto simp: isEqual_def)

text \<open>A state update alone, where \<open>prevProps\<close> is the props of the instance, fetches
  nothing.\<close>

lemma state_update_no_fetch: "componentDidUpdate (w_props w) w = w"
  by (simp add: componentDidUpdate_def isEqual_refl)

lemma sent_fetchProjects:
  "sent (fetchProjects w) =
     sent w @ getTeamsProjectEndpoints (organization_slug (w_props w)) (teams (w_props w))"
  by (simp add: fetchProjects_def Let_def)

lemma joins_fetchProjects:
  "joins (fetchProjects w) =
     joins w @ (if teams (w_props w) = [] then []
                else [map (\<lambda>_. Pending) (teams (w_props w))])"
  by (simp add: fetchProjects_def Let_def getTeamsProjectEndpoints_def comp_def)

lemma loading_fetchProjects: "loadingProjects (w_state (fetchProjects w))"
  by (simp add: fetchProjects_def Let_def)

lemma props_fetchProjects: "w_props (fetchProjects w) = w_props w"
  by (simp add: fetchProjects_def Let_def)

lemma settle_unless:
  "\<not> (k < length (joins w) \<and> i < length (joins w ! k) \<and> joins w ! k ! i = Pending) \<Longrightarrow>
     settle k i out w = w"
  unfolding settle_def by (rule if_not_P)

lemma sent_settle: "sent (settle k i out w) = sent w"
  by (simp add: settle_def Let_def split: promise.splits)

lemma props_settle: "w_props (settle k i out w) = w_props w"
  by (simp add: settle_def Let_def split: promise.splits)

lemma run_append: "run (es @ es') w = run es' (run es w)"
  by (induction es arbitrary: w) simp_all

subsection \<open>An empty team list\<close>

lemma idle_mount: "teams p = [] \<Longrightarrow> idle (mount p)"
  by (simp add: idle_def mount_def componentDidMount_def construct_def fetchProjects_def
      getTeamsProjectEndpoints_def Let_def)

lemma idle_step: "idle w \<Longrightarrow> update_teams_empty e \<Longrightarrow> idle (step e w)"
  by (cases e)
    (simp_all add: idle_def componentDidUpdate_def isEqual_Nil settle_def)

lemma idle_run: "idle w \<Longrightarrow> list_all update_teams_empty es \<Longrightarrow> idle (run es w)"
  by (induction es arbitrary: w) (simp_all add: idle_step)

text \<open>
  C10. In the variant with a loading flag, a wrapper mounted with an empty team list
  and never given another one sends no request and registers no join, and
  \<open>loadingProjects\<close> is true in every state it reaches: nothing ever sets the flag to
  false.
\<close>

theorem empty_team_list_loads_forever:
  "teams p = [] \<Longrightarrow> list_all update_teams_empty es \<Longrightarrow>
     loadingProjects (w_state (run es (mount p))) \<and> sent (run es (mount p)) = []
     \<and> joins (run es (mount p)) = []"
  using idle_run [OF idle_mount, of p es] by (simp add: idle_def)

theorem empty_team_list_loads_forever_witness:
  "teams props_none = []
   \<and> list_all update_teams_empty [Settle 0 0 (Resolve []), Update props_none]
   \<and> loadingProjects
       (w_state (run [Settle 0 0 (Resolve []), Update props_none] (mount props_none)))
   \<and> sent (run [Settle 0 0 (Resolve []), Update props_none] (mount props_none)) = []"
proof -
  have h1: "teams props_none = []"
    by (simp add: props_none_def)
  have h2: "list_all update_teams_empty [Settle 0 0 (Resolve []), Update props_none]"
    by (simp add: props_none_def)
  from empty_team_list_loads_forever [OF h1 h2] h1 h2 show ?thesis
    by simp
qed

subsection \<open>The wrapper without a loading flag\<close>

lemma sent_fetchProjects0:
  "sent0 (fetchProjects0 w) =
     sent0 w @ getTeamsProjectEndpoints (p0_organization_slug (w0_props w)) (p0_teams (w0_props w))"
  by (simp add: fetchProjects0_def Let_def)

text \<open>
  This variant sends the requests again for every new props object, whether or not the
  team list has changed, and it sends none as long as the team list is empty.
\<close>

lemma update0_new_props_object:
  "p0_ref p' \<noteq> p0_ref (w0_props w) \<Longrightarrow>
     sent0 (update0 p' w) =
       sent0 w @ getTeamsProjectEndpoints (p0_organization_slug p') (p0_teams p')"
  by (simp add: update0_def componentDidUpdate0_def sent_fetchProjects0)

lemma state_update_no_fetch0: "componentDidUpdate0 (w0_props w) w = w"
  by (simp add: componentDidUpdate0_def)

lemma mount0_no_teams: "p0_teams p = [] \<Longrightarrow> sent0 (mount0 p) = [] \<and> joins0 (mount0 p) = []"
  by (simp add: mount0_def componentDidMount0_def fetchProjects0_def Let_def
      getTeamsProjectEndpoints_def)

lemma update0_no_teams: "p0_teams p' = [] \<Longrightarrow> sent0 (update0 p' w) = sent0 w"
  by (simp add: update0_def componentDidUpdate0_def sent_fetchProjects0
      getTeamsProjectEndpoints_def)

text \<open>The teams wrapper injects the empty team list for as long as its request is pending.\<close>

lemma users_teams_pending:
  "ut_request (mountUsersTeams org) = Pending \<and> ut_teams (mountUsersTeams org) = []
   \<and> ut_request (fetchTeams_settled out (mountUsersTeams org)) \<noteq> Pending"
  by (cases out) (simp_all add: mountUsersTeams_def fetchTeams_def fetchTeams_settled_def)

subsection \<open>A team list that is still loading\<close>

lemma quiet_mount: "loadingTeams p \<Longrightarrow> quiet (mount p) \<and> loadingTeams (w_props (mount p))"
  by (simp add: quiet_def mount_def componentDidMount_def construct_def)

lemma quiet_step:
  "quiet w \<Longrightarrow> update_while_loading e \<Longrightarrow> loadingTeams (w_props w) \<Longrightarrow>
     quiet (step e w) \<and> loadingTeams (w_props (step e w))"
  by (cases e) (simp_all add: quiet_def componentDidUpdate_def settle_def)

lemma quiet_run:
  "quiet w \<Longrightarrow> loadingTeams (w_props w) \<Longrightarrow> list_all update_while_loading es \<Longrightarrow>
     quiet (run es w)"
  by (induction es arbitrary: w) (simp_all add: quiet_step)

lemma sent_step_Update:
  "sent (step (Update p') w) =
     sent w @
       (if \<not> loadingTeams p' \<and> \<not> isEqual (teams (w_props w)) (teams p')
        then getTeamsProjectEndpoints (organization_slug p') (teams p') else [])"
  by (simp add: componentDidUpdate_def sent_fetchProjects)

lemma props_step_Update: "w_props (step (Update p') w) = p'"
  by (simp add: componentDidUpdate_def props_fetchProjects)

text \<open>
  C8. While \<open>loadingTeams\<close> is set the wrapper sends no project request: not when it
  mounts, not when it is updated, and so in no state of a run throughout which the
  team list is loading. A step that does send a request leaves the wrapper with props
  whose team list has finished loading. The variant without a loading flag has no
  \<open>loadingTeams\<close> to read: its team list comes from the teams wrapper, which injects
  the empty list while its own request is pending, and for an empty list it sends no
  request, when it mounts or when it is updated.
\<close>

theorem no_fetch_while_teams_loading:
  "(loadingTeams p \<longrightarrow> sent (mount p) = [] \<and> joins (mount p) = [])
   \<and> (loadingTeams p' \<longrightarrow> sent (step (Update p') w) = sent w)
   \<and> (loadingTeams p \<and> list_all update_while_loading es \<longrightarrow>
        sent (run es (mount p)) = [] \<and> joins (run es (mount p)) = [])
   \<and> (sent (step e w) \<noteq> sent w \<longrightarrow> \<not> loadingTeams (w_props (step e w)))
   \<and> (p0_teams q = ut_teams (mountUsersTeams org) \<longrightarrow> sent0 (mount0 q) = [])
   \<and> (p0_teams q' = ut_teams (mountUsersTeams org) \<longrightarrow> sent0 (update0 q' w0) = sent0 w0)"
proof (intro conjI impI)
  assume "p0_teams q = ut_teams (mountUsersTeams org)"
  then show "sent0 (mount0 q) = []"
    using mount0_no_teams [of q] users_teams_pending [of org] by simp
next
  assume "p0_teams q' = ut_teams (mountUsersTeams org)"
  then show "sent0 (update0 q' w0) = sent0 w0"
    using update0_no_teams [of q' w0] users_teams_pending [of org] by simp
next
  assume "loadingTeams p"
  then show "sent (mount p) = []" and "joins (mount p) = []"
    using quiet_mount [of p] by (simp_all add: quiet_def)
next
  assume "loadingTeams p'"
  then show "sent (step (Update p') w) = sent w"
    by (simp add: sent_step_Update del: step.simps)
next
  assume "loadingTeams p \<and> list_all update_while_loading es"
  then have "quiet (run es (mount p))"
    using quiet_mount [of p] quiet_run [of "mount p" es] by simp
  then show "sent (run es (mount p)) = []" and "joins (run es (mount p)) = []"
    by (simp_all add: quiet_def)
next
  assume changed: "sent (step e w) \<noteq> sent w"
  show "\<not> loadingTeams (w_props (step e w))"
  proof (cases e)
    case (Update q)
    with changed show ?thesis
      by (auto simp: sent_step_Update props_step_Update simp del: step.simps split: if_splits)
  next
    case (Settle k i out)
    with changed show ?thesis
      by (simp add: sent_settle)
  qed
qed

theorem no_fetch_while_teams_loading_witness:
  "loadingTeams props_loading_a
   \<and> list_all update_while_loading [Update props_loading, Update props_loading_a]
   \<and> sent (mount props_loading_a) = []
   \<and> sent (step (Update props_loading_a) (mount props_loading)) = sent (mount props_loading)
   \<and> sent (run [Update props_loading, Update props_loading_a] (mount props_loading_a)) = []
   \<and> sent (step (Update props_ab) (mount props_loading)) \<noteq> sent (mount props_loading)
   \<and> \<not> loadingTeams (w_props (step (Update props_ab) (mount props_loading)))
   \<and> p0_teams props0_none = ut_teams (mountUsersTeams ''acme'')
   \<and> sent0 (mount0 props0_none) = []
   \<and> sent0 (update0 props0_none (mount0 props0_none)) = sent0 (mount0 props0_none)"
proof -
  have h4: "p0_teams props0_none = ut_teams (mountUsersTeams ''acme'')"
    by code_simp
  have h1: "loadingTeams props_loading_a"
    by (simp add: props_loading_a_def)
  have h2: "list_all update_while_loading [Update props_loading, Update props_loading_a]"
    by (simp add: props_loading_a_def props_loading_def)
  have h3: "sent (step (Update props_ab) (mount props_loading)) \<noteq> sent (mount props_loading)"
    by code_simp
  from no_fetch_while_teams_loading
         [of props_loading_a props_loading_a "mount props_loading"
            "[Update props_loading, Update props_loading_a]" "Update props_ab"
            props0_none "''acme''" props0_none "mount0 props0_none"]
       h1 h2 h3 h4
  show ?thesis
    by simp
qed

subsection \<open>Joins and the loading flag\<close>

lemma promise_all_fulfilled_iff:
  "fulfilled (promise_all ps) = list_all fulfilled ps"
  by (induction ps rule: promise_all.induct) (auto split: promise.splits)

lemma rejected_not_fulfilled: "list_ex rejected ps \<Longrightarrow> \<not> fulfilled (promise_all ps)"
  by (induction ps rule: promise_all.induct) (auto split: promise.splits)

lemma fulfilled_no_pending:
  "fulfilled (promise_all ps) \<Longrightarrow> i < length ps \<Longrightarrow> ps ! i \<noteq> Pending"
  by (auto simp: promise_all_fulfilled_iff list_all_length)

lemma joins_settle:
  "k < length (joins w) \<and> i < length (joins w ! k) \<and> joins w ! k ! i = Pending \<Longrightarrow>
     joins (settle k i out w) = (joins w)[k := (joins w ! k)[i := settled out]]"
  by (simp add: settle_def Let_def split: promise.splits)

lemma state_settle:
  "k < length (joins w) \<and> i < length (joins w ! k) \<and> joins w ! k ! i = Pending \<Longrightarrow>
     w_state (settle k i out w) =
       (case promise_all ((joins w ! k)[i := settled out]) of
          Fulfilled vs \<Rightarrow> \<lparr>st_projects = concat vs, loadingProjects = False\<rparr>
        | _ \<Rightarrow> w_state w)"
  by (simp add: settle_def Let_def split: promise.splits)

lemma completed_or_loading_mount: "loadingProjects (w_state (mount p)) \<or> completed (mount p)"
  by (simp add: mount_def componentDidMount_def construct_def loading_fetchProjects)

lemma completed_or_loading_settle:
  assumes "loadingProjects (w_state w) \<or> completed w"
  shows "loadingProjects (w_state (settle k i out w)) \<or> completed (settle k i out w)"
proof (cases "k < length (joins w) \<and> i < length (joins w ! k) \<and> joins w ! k ! i = Pending")
  case False
  then show ?thesis using assms by (simp add: settle_unless)
next
  case guard: True
  define ps where "ps = (joins w ! k)[i := settled out]"
  have js: "joins (settle k i out w) = (joins w)[k := ps]"
    using guard by (simp add: joins_settle ps_def)
  show ?thesis
  proof (cases "fulfilled (promise_all ps)")
    case True
    have "ps \<in> set (joins (settle k i out w))"
      using guard js by (simp add: set_update_memI)
    then show ?thesis using True by (auto simp: completed_def list_ex_iff)
  next
    case False
    then have st: "w_state (settle k i out w) = w_state w"
      using guard by (cases "promise_all ps") (simp_all add: state_settle ps_def)
    show ?thesis
    proof (cases "loadingProjects (w_state w)")
      case True
      then show ?thesis using st by simp
    next
      case False
      then have "completed w" using assms by simp
      then obtain j where j: "j < length (joins w)" "fulfilled (promise_all (joins w ! j))"
        by (auto simp: completed_def list_ex_length)
      have "j \<noteq> k" using j guard fulfilled_no_pending by blast
      then have "joins (settle k i out w) ! j = joins w ! j" using js by simp
      then have "completed (settle k i out w)" using j js
        by (auto simp: completed_def list_ex_length)
      then show ?thesis by simp
    qed
  qed
qed

lemma completed_or_loading_step:
  "loadingProjects (w_state w) \<or> completed w \<Longrightarrow>
     loadingProjects (w_state (step e w)) \<or> completed (step e w)"
  by (cases e)
    (auto simp: componentDidUpdate_def loading_fetchProjects completed_def
      completed_or_loading_settle [unfolded completed_def])

lemma completed_or_loading_run:
  "loadingProjects (w_state w) \<or> completed w \<Longrightarrow>
     loadingProjects (w_state (run es w)) \<or> completed (run es w)"
  by (induction es arbitrary: w) (simp_all add: completed_or_loading_step del: step.simps)

lemma rejected_not_completed:
  "list_all (list_ex rejected) js \<Longrightarrow> \<not> list_ex (\<lambda>ps. fulfilled (promise_all ps)) js"
  by (induction js) (simp_all add: rejected_not_fulfilled)

lemma rejected_update:
  assumes "list_ex rejected ps" and "i < length ps" and "ps ! i = Pending"
  shows "list_ex rejected (ps[i := x])"
proof -
  from assms(1) obtain j where j: "j < length ps" "rejected (ps ! j)"
    by (auto simp: list_ex_length)
  then have "j \<noteq> i" using assms(3) by auto
  then have "rejected (ps[i := x] ! j)" using j by simp
  then show ?thesis using j by (auto simp: list_ex_length)
qed

lemma rejected_settle:
  assumes "list_all (list_ex rejected) (joins w)"
  shows "list_all (list_ex rejected) (joins (settle k i out w))"
proof (cases "k < length (joins w) \<and> i < length (joins w ! k) \<and> joins w ! k ! i = Pending")
  case False
  then show ?thesis using assms by (simp add: settle_unless)
next
  case True
  then have "list_ex rejected (joins w ! k)"
    using assms by (simp add: list_all_length)
  then have "list_ex rejected ((joins w ! k)[i := settled out])"
    using True by (simp add: rejected_update)
  then show ?thesis
    using assms True by (auto simp: joins_settle list_all_length nth_list_update)
qed

lemma rejected_run:
  "list_all (list_ex rejected) (joins w) \<Longrightarrow> list_all is_Settle es \<Longrightarrow>
     list_all (list_ex rejected) (joins (run es w))"
proof (induction es arbitrary: w)
  case Nil
  then show ?case by simp
next
  case (Cons e es)
  then show ?case by (cases e) (simp_all add: rejected_settle)
qed

text \<open>
  C1, as the code has it. The callback that clears \<open>loadingProjects\<close> is attached to
  the fulfilment of \<open>Promise.all\<close> alone, so a fan-out with a rejected request never
  clears the flag: once every join the wrapper has registered holds a rejected request,
  \<open>loadingProjects\<close> is true, and it stays true however the remaining requests
  settle.
\<close>

theorem partial_failure_keeps_loading:
  assumes "list_all (list_ex rejected) (joins (run es (mount p)))"
    and "list_all is_Settle es'"
  shows "loadingProjects (w_state (run es' (run es (mount p))))"
proof -
  have "list_all (list_ex rejected) (joins (run (es @ es') (mount p)))"
    using assms by (simp add: run_append rejected_run)
  then have "\<not> completed (run (es @ es') (mount p))"
    by (simp add: completed_def rejected_not_completed)
  then show ?thesis
    using completed_or_loading_run [OF completed_or_loading_mount, of "es @ es'" p]
    by (simp add: run_append)
qed

theorem partial_failure_keeps_loading_witness:
  "list_all (list_ex rejected)
     (joins (run [Settle 0 1 (Reject ''500'')] (mount props_ab)))
   \<and> list_all is_Settle [Settle 0 0 (Resolve [project_Z]), Settle 0 1 (Resolve [project_A])]
   \<and> loadingProjects (w_state
       (run [Settle 0 0 (Resolve [project_Z]), Settle 0 1 (Resolve [project_A])]
          (run [Settle 0 1 (Reject ''500'')] (mount props_ab))))"
proof -
  have h1: "list_all (list_ex rejected)
     (joins (run [Settle 0 1 (Reject ''500'')] (mount props_ab)))"
    by code_simp
  have h2: "list_all is_Settle
     [Settle 0 0 (Resolve [project_Z]), Settle 0 1 (Resolve [project_A])]"
    by simp
  from partial_failure_keeps_loading [OF h1 h2] h1 h2 show ?thesis
    by simp
qed

text \<open>
  The claim of C1 fails for the teams \<open>a\<close> and \<open>b\<close> when the request of \<open>a\<close>
  succeeds and the request of \<open>b\<close> fails: both requests have settled, and
  \<open>loadingProjects\<close> is still true.
\<close>

theorem partial_failure_counterexample:
  "loadingProjects (w_state
     (run [Settle 0 0 (Resolve [project_Z]), Settle 0 1 (Reject ''500'')] (mount props_ab)))
   \<and> joins (run [Settle 0 0 (Resolve [project_Z]), Settle 0 1 (Reject ''500'')] (mount props_ab))
       = [[Fulfilled [project_Z], Rejected ''500'']]"
  by code_simp

text \<open>When both requests succeed the callback runs: the projects are stored, in the order
  of the team list, and the flag is cleared.\<close>

lemma complete_success_clears_flag:
  "w_state (run [Settle 0 1 (Resolve [project_A]), Settle 0 0 (Resolve [project_Z])]
      (mount props_ab))
     = \<lparr>st_projects = [project_Z, project_A], loadingProjects = False\<rparr>"
  by code_simp

subsection \<open>Fetching again on an update\<close>

text \<open>
  In the variant with a loading flag, once the team list has finished loading an update
  with a structurally equal team list changes nothing but the props, and an update with
  a non-empty team list sends requests exactly when the list differs from the previous
  one by value.
\<close>

lemma equal_team_list_changes_props_only:
  "isEqual (teams (w_props w)) (teams p') \<Longrightarrow> step (Update p') w = w\<lparr>w_props := p'\<rparr>"
  by (simp add: componentDidUpdate_def)

lemma loaded_update_fetches_iff_changed:
  "\<not> loadingTeams p' \<Longrightarrow> teams p' \<noteq> [] \<Longrightarrow>
     (sent (step (Update p') w) \<noteq> sent w) = (\<not> isEqual (teams (w_props w)) (teams p'))"
  by (simp add: sent_step_Update getTeamsProjectEndpoints_def del: step.simps)

text \<open>
  C2. The claim is that an update whose team list is structurally equal to the previous
  one triggers no new fan-out. The variant without a loading flag compares the props
  objects instead of the team lists: mounted with the teams \<open>a\<close> and \<open>b\<close> and then
  updated with a new props object that holds a structurally equal team list, it sends
  both requests a second time. The variant with a loading flag, on the same input,
  sends nothing.
\<close>

theorem unchanged_team_list_fetched_again:
  "isEqual (p0_teams (w0_props (mount0 props0_ab))) (p0_teams props0_ab_again)
   \<and> sent0 (mount0 props0_ab) = [''/teams/acme/a/projects/'', ''/teams/acme/b/projects/'']
   \<and> sent0 (update0 props0_ab_again (mount0 props0_ab))
       = [''/teams/acme/a/projects/'', ''/teams/acme/b/projects/'',
          ''/teams/acme/a/projects/'', ''/teams/acme/b/projects/'']
   \<and> isEqual (teams (w_props (mount props_ab))) (teams props_ab_again)
   \<and> sent (step (Update props_ab_again) (mount props_ab)) = sent (mount props_ab)"
  by code_simp

section \<open>Properties of the teams wrapper and the team section\<close>

text \<open>
  C3, as the code has it. When its request fails, \<open>TeamSection\<close> writes the error to
  the console and changes nothing else: \<open>loading\<close> stays true and the project list is
  kept; its state has no error indicator. \<open>withUsersTeams\<close>, whose state has neither a
  loading flag nor an error indicator, keeps its team list. \<open>loading\<close> is set to
  false when the request succeeds.
\<close>

theorem failed_fetch_is_logged_only:
  "fetchData_resumed (Reject err) (fetchData orgId t s) =
     (fetchData orgId t s)\<lparr>console := console s @ [err], ts_request := Rejected err\<rparr>
   \<and> loading (fetchData_resumed (Reject err) (fetchData orgId t s))
   \<and> ts_projects (fetchData_resumed (Reject err) (fetchData orgId t s)) = ts_projects s
   \<and> \<not> loading (fetchData_resumed (Resolve ps) (fetchData orgId t s))
   \<and> ts_projects (fetchData_resumed (Resolve ps) (fetchData orgId t s)) = ps
   \<and> ut_teams (fetchTeams_settled (Reject err) (fetchTeams org u)) = ut_teams u
   \<and> ut_teams (fetchTeams_settled (Resolve data) (fetchTeams org u)) = data"
  by (simp add: fetchData_resumed_def fetchData_def fetchTeams_settled_def fetchTeams_def)

theorem failed_fetch_is_logged_only_witness:
  "loading (fetchData_resumed (Reject ''500'') (mountTeamSection ''acme'' team_a))
   \<and> \<not> loading (fetchData_resumed (Resolve [project_Z]) (mountTeamSection ''acme'' team_a))
   \<and> ts_projects (fetchData_resumed (Reject ''500'') (mountTeamSection ''acme'' team_a)) = []
   \<and> ut_teams (fetchTeams_settled (Reject ''500'') (mountUsersTeams ''acme'')) = []"
  using failed_fetch_is_logged_only
    [of "''500''" "''acme''" team_a
        "\<lparr>loading = True, ts_projects = [], ts_request = Pending, ts_sent = [], console = []\<rparr>"
        "[project_Z]" "''acme''" "\<lparr>ut_teams = [], ut_request = Pending, ut_sent = []\<rparr>" "[]"]
  by (simp add: mountTeamSection_def mountUsersTeams_def fetchData_def)

text \<open>
  The claim of C3 fails for the section of team \<open>a\<close> when its request is rejected:
  the loading flag is still set.
\<close>

theorem failed_fetch_counterexample:
  "loading (fetchData_resumed (Reject ''500'') (mountTeamSection ''acme'' team_a))
   \<and> ts_request (fetchData_resumed (Reject ''500'') (mountTeamSection ''acme'' team_a))
       = Rejected ''500''"
  by code_simp

section \<open>Properties of the library functions\<close>

lemma foldl_update_keys:
  "fst ` set (foldl (\<lambda>obj (k, v). AList.update k v obj) acc es) = fst ` set acc \<union> fst ` set es"
proof (induction es arbitrary: acc)
  case Nil
  then show ?case by simp
next
  case (Cons e es)
  obtain k v where e: "e = (k, v)" by (cases e)
  have "fst ` set (AList.update k v acc) = insert k (fst ` set acc)"
    by (simp add: AList.dom_update)
  then show ?case
    by (simp add: Cons.IH e)
qed

lemma foldl_update_distinct:
  "distinct (map fst acc) \<Longrightarrow>
     distinct (map fst (foldl (\<lambda>obj (k, v). AList.update k v obj) acc es))"
proof (induction es arbitrary: acc)
  case Nil
  then show ?case by simp
next
  case (Cons e es)
  obtain k v where e: "e = (k, v)" by (cases e)
  show ?case
    using Cons.prems by (simp add: Cons.IH e AList.distinct_update)
qed

lemma foldl_update_map_of:
  "map_of (foldl (\<lambda>obj (k, v). AList.update k v obj) acc es) = map_of acc ++ map_of (rev es)"
proof (induction es arbitrary: acc)
  case Nil
  then show ?case by simp
next
  case (Cons e es)
  obtain k v where e: "e = (k, v)" by (cases e)
  have "map_of (AList.update k v acc) ++ map_of (rev es) = map_of acc ++ map_of (rev es @ [(k, v)])"
    by (auto simp: AList.update_conv' map_add_def fun_eq_iff split: option.splits)
  then show ?case
    by (simp add: Cons.IH e)
qed

lemma keys_fromEntries: "set (Object_keys (fromEntries es)) = fst ` set es"
  using foldl_update_keys [of "[]" es] by (simp add: Object_keys_def fromEntries_def)

lemma distinct_keys_fromEntries: "distinct (Object_keys (fromEntries es))"
  using foldl_update_distinct [of "[]" es] by (simp add: Object_keys_def fromEntries_def)

lemma get_fromEntries: "get (fromEntries es) k = map_of (rev es) k"
  by (simp add: get_def fromEntries_def foldl_update_map_of)

lemma get_fromEntries_map:
  "get (fromEntries (map (\<lambda>t. (f t, g t)) ts)) k = Some v \<Longrightarrow> \<exists>t \<in> set ts. f t = k \<and> v = g t"
  by (auto simp: get_fromEntries rev_map[symmetric] dest!: map_of_SomeD)

lemma get_fromEntries_defined:
  "t \<in> set ts \<Longrightarrow> get (fromEntries (map (\<lambda>t. (f t, g t)) ts)) (f t) \<noteq> None"
  by (auto simp: get_fromEntries map_of_eq_None_iff image_iff rev_map[symmetric])

lemma sorted_teamSlugs: "sorted (teamSlugs obj)"
  by (simp add: teamSlugs_def)

lemma set_teamSlugs: "set (teamSlugs obj) = set (Object_keys obj)"
  by (simp add: teamSlugs_def)

lemma distinct_teamSlugs: "distinct (teamSlugs obj) = distinct (Object_keys obj)"
  by (simp add: teamSlugs_def)

lemma keys_projectsByTeam: "set (Object_keys (projectsByTeam ts)) = slug ` set ts"
  by (simp add: projectsByTeam_def keys_fromEntries image_image)

lemma mset_sortProjects: "mset (sortProjects ps) = mset ps"
  by (simp add: sortProjects_def)

lemma project_le_key:
  "project_le p q = ((\<not> isBookmarked p, name p) \<le> (\<not> isBookmarked q, name q))"
  by (auto simp: project_le_def less_eq_prod_def)

lemma sorted_sortProjects: "sorted_wrt project_le (sortProjects ps)"
proof -
  have "sorted (map (\<lambda>p. (\<not> isBookmarked p, name p)) (sortProjects ps))"
    by (simp add: sortProjects_def)
  then show ?thesis
    by (simp add: sorted_map project_le_key [abs_def])
qed

lemma distinct_ids_sortProjects:
  "distinct (map project_id (sortProjects ps)) = distinct (map project_id ps)"
proof -
  have "mset (map project_id (sortProjects ps)) = mset (map project_id ps)"
    by (simp add: mset_sortProjects)
  then show ?thesis by (metis mset_eq_imp_distinct_iff)
qed

lemma baseUniq_refs:
  "distinct (map ref acc) \<Longrightarrow> distinct (map ref (baseUniq acc xs))"
  by (induction acc xs rule: baseUniq.induct) auto

lemma baseUniq_set: "ref ` set (baseUniq acc xs) = ref ` set acc \<union> ref ` set xs"
  by (induction acc xs rule: baseUniq.induct) auto

lemma baseUniq_distinct_objects:
  "distinct (map ref (acc @ xs)) \<Longrightarrow> baseUniq acc xs = acc @ xs"
  by (induction acc xs rule: baseUniq.induct) auto

lemma uniq_distinct_objects: "distinct (map ref xs) \<Longrightarrow> uniq xs s = xs"
  using baseUniq_distinct_objects [of "[]" xs] by (simp add: uniq_def)

lemma uniq_Nil_iff: "(uniq xs s = []) = (xs = [])"
  using baseUniq_set [of "[]" xs] by (auto simp: uniq_def)


section \<open>Properties of the dashboard\<close>

lemma sequence_map_Inr:
  "sequence (map f xs) = Inr ys \<Longrightarrow> list_all2 (\<lambda>x y. f x = Inr y) xs ys"
proof (induction xs arbitrary: ys)
  case Nil
  then show ?case by simp
next
  case (Cons x xs)
  then show ?case
    by (cases "f x"; cases "sequence (map f xs)") auto
qed

lemma sequence_map_total:
  "list_all (\<lambda>x. \<exists>y. f x = Inr y) xs \<Longrightarrow> \<exists>ys. sequence (map f xs) = Inr ys"
proof (induction xs)
  case Nil
  then show ?case by simp
next
  case (Cons x xs)
  then obtain y ys where "f x = Inr y" "sequence (map f xs) = Inr ys" by auto
  then show ?case by simp
qed

lemma renderTeamSection_Inr:
  "renderTeamSection org orgId tm byTeam slugs (i, s) = Inr sec \<Longrightarrow>
     sec_key sec = s \<and> sec_projects sec = get byTeam s \<and> sec_team sec = get tm s"
  by (auto simp: renderTeamSection_def Let_def split: if_splits option.splits)

lemma renderTeamSection_total:
  "get tm s \<noteq> None \<or> ''team:admin'' \<notin> set (access org) \<Longrightarrow>
     \<exists>sec. renderTeamSection org orgId tm byTeam slugs (i, s) = Inr sec"
  by (auto simp: renderTeamSection_def Let_def split: if_splits option.splits)

lemma sections_keys:
  assumes "list_all2 (\<lambda>x y. renderTeamSection org orgId tm byTeam slugs x = Inr y) xs secs"
  shows "map sec_key secs = map snd xs \<and> map sec_projects secs = map (get byTeam) (map snd xs)"
  using assms
  by (induction xs secs rule: list_all2_induct) (auto dest: renderTeamSection_Inr)

lemma renderContent_Inr:
  assumes "renderContent org orgId ts projs byTeam slugs sr = Inr el"
  shows "\<exists>hdr secs. el = Fragment hdr secs sr \<and> map sec_key secs = slugs
           \<and> map sec_projects secs = map (get byTeam) slugs \<and> (hdr = None) = (projs = [])"
proof -
  let ?tm = "fromEntries (map (\<lambda>teamObj. (slug teamObj, teamObj)) ts)"
  let ?rs = "map (renderTeamSection org orgId ?tm byTeam slugs) (enumerate 0 slugs)"
  from assms obtain secs where secs: "sequence ?rs = Inr secs"
    by (cases "sequence ?rs") (auto simp: renderContent_def Let_def)
  have "map sec_key secs = slugs \<and> map sec_projects secs = map (get byTeam) slugs"
    using sections_keys [OF sequence_map_Inr [OF secs]] by simp
  then show ?thesis
    using assms secs by (auto simp: renderContent_def Let_def)
qed

lemma get_teamsMap_defined:
  "s \<in> slug ` set ts \<Longrightarrow>
     get (fromEntries (map (\<lambda>teamObj. (slug teamObj, teamObj)) ts)) s \<noteq> None"
  using get_fromEntries_defined [where f = slug and g = "\<lambda>t. t" and ts = ts] by auto

lemma renderContent_total:
  assumes "set slugs \<subseteq> slug ` set ts \<or> ''team:admin'' \<notin> set (access org)"
  shows "\<exists>el. renderContent org orgId ts projs byTeam slugs sr = Inr el"
proof -
  let ?tm = "fromEntries (map (\<lambda>teamObj. (slug teamObj, teamObj)) ts)"
  have "list_all (\<lambda>x. \<exists>y. renderTeamSection org orgId ?tm byTeam slugs x = Inr y)
          (enumerate 0 slugs)"
  proof (unfold list_all_iff, intro ballI)
    fix x assume x: "x \<in> set (enumerate 0 slugs)"
    obtain i s where x_eq: "x = (i, s)" by (cases x)
    then have "s \<in> set slugs" using x by (auto simp: in_set_enumerate_eq)
    then have "get ?tm s \<noteq> None \<or> ''team:admin'' \<notin> set (access org)"
      using assms get_teamsMap_defined [of s ts] by auto
    then show "\<exists>y. renderTeamSection org orgId ?tm byTeam slugs x = Inr y"
      unfolding x_eq by (rule renderTeamSection_total)
  qed
  then obtain secs where
    "sequence (map (renderTeamSection org orgId ?tm byTeam slugs) (enumerate 0 slugs)) = Inr secs"
    using sequence_map_total by blast
  then show ?thesis
    by (simp add: renderContent_def Let_def)
qed

lemma teamSlugs_projectsByTeam: "set (teamSlugs (projectsByTeam ts)) = slug ` set ts"
  by (simp add: set_teamSlugs keys_projectsByTeam)

lemma render_teamsForUser_total: "\<exists>el. render_teamsForUser p = Inr el"
  using renderContent_total [of "teamSlugs (projectsByTeam (d_teams p))" "d_teams p"]
  by (simp add: render_teamsForUser_def Let_def teamSlugs_projectsByTeam)

lemma get_defined_iff: "(\<exists>v. get obj k = Some v) = (k \<in> set (Object_keys obj))"
proof -
  have "(map_of obj k = None) = (k \<notin> fst ` set obj)"
    by (rule map_of_eq_None_iff)
  then show ?thesis
    by (cases "map_of obj k") (simp_all add: get_def Object_keys_def)
qed

lemma render_teamsForUser_content:
  assumes "\<not> d_loadingTeams p" and "d_error p = None" and "allProjects (d_teams p) \<noteq> []"
  shows "\<exists>hdr secs.
           render_teamsForUser p
             = Inr (Fragment (Some hdr) secs (showResources (allProjects (d_teams p))))
           \<and> map sec_key secs = teamSlugs (projectsByTeam (d_teams p))"
proof -
  obtain el where el: "render_teamsForUser p = Inr el"
    using render_teamsForUser_total by blast
  then have "renderContent (d_organization p) (d_orgId p) (d_teams p) (allProjects (d_teams p))
      (projectsByTeam (d_teams p)) (teamSlugs (projectsByTeam (d_teams p)))
      (showResources (allProjects (d_teams p))) = Inr el"
    using assms by (simp add: render_teamsForUser_def Let_def)
  from renderContent_Inr [OF this] el assms(3) show ?thesis
    by auto
qed

lemma render_teamProjects_content:
  assumes "\<not> b_loadingProjects q"
    and "teamSlugs (grouping (b_teams q) (sortProjects (b_projects q)) su) \<noteq> []"
    and "set (teamSlugs (grouping (b_teams q) (sortProjects (b_projects q)) su))
           \<subseteq> slug ` set (b_teams q)"
  shows "\<exists>hdr secs.
           render_teamProjects grouping su q
             = Inr (Fragment hdr secs (showResources (b_projects q)))
           \<and> map sec_key secs
               = teamSlugs (grouping (b_teams q) (sortProjects (b_projects q)) su)"
proof -
  let ?byTeam = "grouping (b_teams q) (sortProjects (b_projects q)) su"
  obtain el where el: "renderContent (b_organization q) (b_orgId q) (b_teams q) (b_projects q)
      ?byTeam (teamSlugs ?byTeam) (showResources (b_projects q)) = Inr el"
    using renderContent_total [of "teamSlugs ?byTeam" "b_teams q"] assms(3) by blast
  then have "render_teamProjects grouping su q = Inr el"
    using assms by (simp add: render_teamProjects_def Let_def)
  with renderContent_Inr [OF el] show ?thesis
    by auto
qed

subsection \<open>Grouping the projects by team\<close>

lemma map_of_map_find:
  "map_of (map (\<lambda>t. (f t, g t)) xs) k = map_option g (find (\<lambda>t. f t = k) xs)"
  by (induction xs) auto

lemma get_projectsByTeam:
  "get (projectsByTeam ts) k
     = map_option (\<lambda>t. sortProjects (projects t)) (find (\<lambda>t. slug t = k) (rev ts))"
  by (simp add: projectsByTeam_def get_fromEntries rev_map map_of_map_find)

text \<open>
  C4, as the code has it. The grouped mapping has exactly one key per team slug of the
  team list. The value of a key is the sorted project list of the last team of the list
  with that slug. Sorting rearranges a project list: the same projects, as many times as
  the team embeds them, ordered bookmarked first and then by name. Nothing removes a
  repeated project, so the value has no repeated identifier exactly when the team's own
  list has none.
\<close>

theorem grouping_by_team:
  "distinct (Object_keys (projectsByTeam ts))
   \<and> set (Object_keys (projectsByTeam ts)) = slug ` set ts
   \<and> ((\<exists>v. get (projectsByTeam ts) k = Some v) = (k \<in> slug ` set ts))
   \<and> get (projectsByTeam ts) k
       = map_option (\<lambda>t. sortProjects (projects t)) (find (\<lambda>t. slug t = k) (rev ts))
   \<and> mset (sortProjects ps) = mset ps
   \<and> sorted_wrt project_le (sortProjects ps)
   \<and> distinct (map project_id (sortProjects ps)) = distinct (map project_id ps)"
proof (intro conjI)
  show "distinct (Object_keys (projectsByTeam ts))"
    by (simp add: projectsByTeam_def distinct_keys_fromEntries)
  show "set (Object_keys (projectsByTeam ts)) = slug ` set ts"
    by (rule keys_projectsByTeam)
  show "(\<exists>v. get (projectsByTeam ts) k = Some v) = (k \<in> slug ` set ts)"
    by (simp only: get_defined_iff keys_projectsByTeam)
  show "get (projectsByTeam ts) k
       = map_option (\<lambda>t. sortProjects (projects t)) (find (\<lambda>t. slug t = k) (rev ts))"
    by (rule get_projectsByTeam)
  show "mset (sortProjects ps) = mset ps"
    by (rule mset_sortProjects)
  show "sorted_wrt project_le (sortProjects ps)"
    by (rule sorted_sortProjects)
  show "distinct (map project_id (sortProjects ps)) = distinct (map project_id ps)"
    by (rule distinct_ids_sortProjects)
qed

theorem grouping_by_team_witness:
  "Object_keys (projectsByTeam [team_a, team_b, team_a_later]) = [''a'', ''b'']
   \<and> find (\<lambda>t. slug t = ''a'') (rev [team_a, team_b, team_a_later]) = Some team_a_later
   \<and> get (projectsByTeam [team_a, team_b, team_a_later]) ''a'' = Some [project_A, project_Z]
   \<and> sortProjects (projects team_a_later) = [project_A, project_Z]
   \<and> sorted_wrt project_le [project_A, project_Z]
   \<and> mset [project_A, project_Z] = mset (projects team_a_later)"
proof -
  have k: "Object_keys (projectsByTeam [team_a, team_b, team_a_later]) = [''a'', ''b'']"
    by code_simp
  have f: "find (\<lambda>t. slug t = ''a'') (rev [team_a, team_b, team_a_later]) = Some team_a_later"
    by code_simp
  have v: "sortProjects (projects team_a_later) = [project_A, project_Z]"
    by code_simp
  from grouping_by_team [of "[team_a, team_b, team_a_later]" "''a''" "projects team_a_later"]
       k f v
  show ?thesis
    by simp
qed

text \<open>
  The claim of C4 fails for a team that embeds the same project twice: the project
  appears twice under the team's key.
\<close>

theorem grouping_by_team_counterexample:
  "get (projectsByTeam [team_twice]) ''a'' = Some [project_Z, project_Z_again]
   \<and> map project_id [project_Z, project_Z_again] = [''1'', ''1'']"
  by code_simp

subsection \<open>The flattened project collection\<close>

text \<open>
  C5. The claim is that the flattened collection of all projects holds each project
  identifier once. The code passes the flattened list to \<open>uniq\<close>, which compares
  objects by identity: for the teams \<open>a\<close> and \<open>c\<close>, which embed the project with
  identifier \<open>1\<close> as two objects, the collection of the dashboard and the one of the
  install-prompt banner both hold the identifier twice. What \<open>uniq\<close> does give is
  stated by \<open>baseUniq_refs\<close> and \<open>uniq_distinct_objects\<close>: every object once, and a
  list of distinct objects unchanged.
\<close>

theorem flattened_projects_repeat_identifier:
  "map project_id (allProjects [team_a, team_c]) = [''1'', ''1'']
   \<and> render_banner dashboard_ac = InstallPromptBanner [project_Z, project_Z_again]"
  by code_simp

subsection \<open>The empty state\<close>

text \<open>
  The dashboard over teams that embed their projects renders the empty-state message,
  with no team section, when loading is over without an error and there is no team.
\<close>

lemma render_teamsForUser_no_teams:
  "\<not> d_loadingTeams p \<Longrightarrow> d_error p = None \<Longrightarrow> d_teams p = [] \<Longrightarrow>
     render_teamsForUser p = Inr (NoProjectMessage [])"
  by (simp add: render_teamsForUser_def allProjects_def flatten_def uniq_def)

text \<open>
  The exported screen over fetched projects shows the loading indicator in every state
  the team-projects wrapper reaches from an empty team list, whatever the grouping.
\<close>

lemma screen_stays_loading:
  assumes "teams p = []" and "list_all update_teams_empty es"
  shows "screen_teamProjects grouping su org orgId (run es (mount p)) = Inr LoadingIndicator"
proof -
  have "idle (run es (mount p))"
    using assms idle_run [OF idle_mount, of p es] by simp
  then show ?thesis
    by (simp add: idle_def screen_teamProjects_def withTeamProjects_render_def
        render_teamProjects_def)
qed

text \<open>
  C6. The claim is that with no team and no bookmarked project, once every request has
  completed, the dashboard renders the empty-state message and sends no project request.
  For the exported screen over fetched projects it does not hold: the teams request is
  fulfilled with no team, no project request is sent or pending, and the screen still
  shows the loading indicator, because the team-projects wrapper clears
  \<open>loadingProjects\<close> in the callback of a fan-out alone and starts none for an empty
  team list. The dashboard over teams that embed their projects renders the empty-state
  message on the same input.
\<close>

theorem no_teams_screen_stays_loading:
  "ut_request (fetchTeams_settled (Resolve []) (mountUsersTeams ''acme'')) = Fulfilled []
   \<and> teams (w_props no_teams_run) = []
   \<and> sent no_teams_run = [] \<and> joins no_teams_run = []
   \<and> screen_teamProjects entry_per_team False acme ''acme'' no_teams_run = Inr LoadingIndicator
   \<and> render_teamsForUser dashboard_none = Inr (NoProjectMessage [])"
  by code_simp

subsection \<open>A single project without events\<close>

text \<open>
  When loading is over without an error and the collection the dashboard computes is
  one project with no \<open>firstEvent\<close>, the dashboard renders the normal content with the
  resources panel after the sections.
\<close>

lemma single_entry_shows_resources:
  assumes "\<not> d_loadingTeams p" and "d_error p = None"
    and "allProjects (d_teams p) = [pr]" and "firstEvent pr = None"
  shows "\<exists>hdr secs. render_teamsForUser p = Inr (Fragment (Some hdr) secs True)
           \<and> map sec_key secs = teamSlugs (projectsByTeam (d_teams p))"
  using render_teamsForUser_content [of p] assms
  by (simp add: showResources_def truthy_def)

lemma one_team_one_project_shows_resources:
  "map project_id (allProjects (d_teams dashboard_a)) = [''1'']
   \<and> section_keys (render_teamsForUser dashboard_a) = [''a'']
   \<and> shows_resources (render_teamsForUser dashboard_a)"
  by code_simp

text \<open>
  The exported screen over fetched projects, for the two teams that embed the same
  project, has no resources panel, whatever the grouping.
\<close>

lemma two_teams_screen_hides_resources:
  "\<not> shows_resources (screen_teamProjects grouping su org orgId two_teams_run)"
proof -
  have st: "w_state two_teams_run
      = \<lparr>st_projects = [project_Z, project_Z_again], loadingProjects = False\<rparr>"
    by code_simp
  let ?q = "withTeamProjects_render org orgId two_teams_run"
  have q: "b_projects ?q = [project_Z, project_Z_again]" "\<not> b_loadingProjects ?q"
    by (simp_all add: withTeamProjects_render_def st)
  have sr: "\<not> showResources (b_projects ?q)"
    by (simp add: q showResources_def)
  show ?thesis
  proof (cases "render_teamProjects grouping su ?q")
    case (Inl e)
    then show ?thesis
      by (simp add: shows_resources_def screen_teamProjects_def)
  next
    case (Inr el)
    show ?thesis
    proof (cases "render_teamProjects grouping su ?q = Inr (NoProjectMessage (b_projects ?q))")
      case True
      then show ?thesis
        by (simp add: shows_resources_def screen_teamProjects_def)
    next
      case False
      then have "renderContent (b_organization ?q) (b_orgId ?q) (b_teams ?q) (b_projects ?q)
          (grouping (b_teams ?q) (sortProjects (b_projects ?q)) su)
          (teamSlugs (grouping (b_teams ?q) (sortProjects (b_projects ?q)) su))
          (showResources (b_projects ?q)) = Inr el"
        using Inr q(2) by (simp add: render_teamProjects_def Let_def split: if_splits)
      from renderContent_Inr [OF this] obtain hdr secs where
        "el = Fragment hdr secs (showResources (b_projects ?q))"
        by blast
      then show ?thesis
        using Inr sr by (simp add: shows_resources_def screen_teamProjects_def)
    qed
  qed
qed

text \<open>
  C7. The claim is that with exactly one project, one that has no \<open>firstEvent\<close>, the
  dashboard renders the normal content and the resources panel. It does not hold when
  that project belongs to two teams: the teams \<open>a\<close> and \<open>c\<close> embed the one project
  with identifier \<open>1\<close>, the collection the dashboard computes holds it twice, and
  the normal content is rendered without the resources panel. The same happens in the
  exported screen over fetched projects, where the project list is the concatenation
  of the per-team responses.
\<close>

theorem project_under_two_teams_hides_resources:
  "remdups (map project_id (flatten (map projects (d_teams dashboard_ac)))) = [''1'']
   \<and> map firstEvent (flatten (map projects (d_teams dashboard_ac))) = [None, None]
   \<and> map project_id (allProjects (d_teams dashboard_ac)) = [''1'', ''1'']
   \<and> section_keys (render_teamsForUser dashboard_ac) = [''a'', ''c'']
   \<and> \<not> shows_resources (render_teamsForUser dashboard_ac)
   \<and> st_projects (w_state two_teams_run) = [project_Z, project_Z_again]
   \<and> \<not> loadingProjects (w_state two_teams_run)
   \<and> \<not> showResources (b_projects (withTeamProjects_render acme ''acme'' two_teams_run))
   \<and> \<not> shows_resources (screen_teamProjects entry_per_team False acme ''acme'' two_teams_run)"
  by code_simp

subsection \<open>The order of the team sections\<close>

text \<open>
  C9. The team slugs the sections are laid out from are sorted and without repetition,
  and they are exactly the slugs of the teams of the list (as many as there are teams,
  when no two teams share a slug). Rendering never fails, and the normal content has one
  section per team slug, in that order, each with the projects grouped under its slug.
  In the dashboard over fetched projects the sections are in the sorted order of the
  keys of the grouping.
\<close>

theorem sections_in_slug_order:
  "sorted (teamSlugs (projectsByTeam ts)) \<and> distinct (teamSlugs (projectsByTeam ts))
   \<and> set (teamSlugs (projectsByTeam ts)) = slug ` set ts
   \<and> (distinct (map slug ts) \<longrightarrow> length (teamSlugs (projectsByTeam ts)) = length ts)
   \<and> (\<exists>el. render_teamsForUser p = Inr el)
   \<and> (render_teamsForUser p = Inr (Fragment hdr secs r) \<longrightarrow>
        map sec_key secs = teamSlugs (projectsByTeam (d_teams p))
        \<and> map sec_projects secs
            = map (get (projectsByTeam (d_teams p))) (teamSlugs (projectsByTeam (d_teams p))))
   \<and> (render_teamProjects grouping su q = Inr (Fragment hdr' secs' r') \<longrightarrow>
        map sec_key secs'
          = teamSlugs (grouping (b_teams q) (sortProjects (b_projects q)) su)
        \<and> sorted (map sec_key secs'))"
proof (intro conjI impI)
  show "sorted (teamSlugs (projectsByTeam ts))"
    by (rule sorted_teamSlugs)
  show d: "distinct (teamSlugs (projectsByTeam ts))"
    by (simp add: distinct_teamSlugs projectsByTeam_def distinct_keys_fromEntries)
  show s: "set (teamSlugs (projectsByTeam ts)) = slug ` set ts"
    by (rule teamSlugs_projectsByTeam)
  show "\<exists>el. render_teamsForUser p = Inr el"
    by (rule render_teamsForUser_total)
  {
    assume "distinct (map slug ts)"
    then have "card (slug ` set ts) = length ts"
      using distinct_card [of "map slug ts"] by simp
    then show "length (teamSlugs (projectsByTeam ts)) = length ts"
      using distinct_card [OF d] s by simp
  }
  {
    assume a: "render_teamsForUser p = Inr (Fragment hdr secs r)"
    then have "renderContent (d_organization p) (d_orgId p) (d_teams p) (allProjects (d_teams p))
        (projectsByTeam (d_teams p)) (teamSlugs (projectsByTeam (d_teams p)))
        (showResources (allProjects (d_teams p))) = Inr (Fragment hdr secs r)"
      by (simp add: render_teamsForUser_def Let_def split: if_splits)
    from renderContent_Inr [OF this]
    show "map sec_key secs = teamSlugs (projectsByTeam (d_teams p))"
      and "map sec_projects secs
            = map (get (projectsByTeam (d_teams p))) (teamSlugs (projectsByTeam (d_teams p)))"
      by auto
  }
  {
    assume b: "render_teamProjects grouping su q = Inr (Fragment hdr' secs' r')"
    then have "renderContent (b_organization q) (b_orgId q) (b_teams q) (b_projects q)
        (grouping (b_teams q) (sortProjects (b_projects q)) su)
        (teamSlugs (grouping (b_teams q) (sortProjects (b_projects q)) su))
        (showResources (b_projects q)) = Inr (Fragment hdr' secs' r')"
      by (simp add: render_teamProjects_def Let_def split: if_splits)
    from renderContent_Inr [OF this]
    show k: "map sec_key secs'
          = teamSlugs (grouping (b_teams q) (sortProjects (b_projects q)) su)"
      by auto
    show "sorted (map sec_key secs')"
      unfolding k by (rule sorted_teamSlugs)
  }
qed

theorem sections_in_slug_order_witness:
  "distinct (map slug (d_teams dashboard_bd))
   \<and> teamSlugs (projectsByTeam (d_teams dashboard_bd)) = [''b'', ''d'']
   \<and> (\<exists>hdr secs r. render_teamsForUser dashboard_bd = Inr (Fragment hdr secs r)
         \<and> map sec_key secs = [''b'', ''d'']
         \<and> map sec_projects secs = [Some [project_A], Some [project_A, project_Z]])
   \<and> (\<exists>hdr secs r.
         render_teamProjects entry_per_team False dashboard2_bd = Inr (Fragment hdr secs r)
         \<and> map sec_key secs = [''b'', ''d''])"
proof -
  have d: "distinct (map slug (d_teams dashboard_bd))"
    by code_simp
  have k: "teamSlugs (projectsByTeam (d_teams dashboard_bd)) = [''b'', ''d'']"
    by code_simp
  have g: "map (get (projectsByTeam (d_teams dashboard_bd))) [''b'', ''d'']
      = [Some [project_A], Some [project_A, project_Z]]"
    by code_simp
  have k': "teamSlugs (entry_per_team (b_teams dashboard2_bd)
      (sortProjects (b_projects dashboard2_bd)) False) = [''b'', ''d'']"
    by code_simp
  have "\<not> d_loadingTeams dashboard_bd" and "d_error dashboard_bd = None"
    and "allProjects (d_teams dashboard_bd) \<noteq> []"
    by code_simp+
  then obtain hdr secs where
    r: "render_teamsForUser dashboard_bd
          = Inr (Fragment (Some hdr) secs (showResources (allProjects (d_teams dashboard_bd))))"
    using render_teamsForUser_content by blast
  have "\<not> b_loadingProjects dashboard2_bd"
    and "teamSlugs (entry_per_team (b_teams dashboard2_bd)
           (sortProjects (b_projects dashboard2_bd)) False) \<noteq> []"
    and "set (teamSlugs (entry_per_team (b_teams dashboard2_bd)
           (sortProjects (b_projects dashboard2_bd)) False)) \<subseteq> slug ` set (b_teams dashboard2_bd)"
    by code_simp+
  then obtain hdr' secs' where
    r': "render_teamProjects entry_per_team False dashboard2_bd
          = Inr (Fragment hdr' secs' (showResources (b_projects dashboard2_bd)))"
    using render_teamProjects_content by blast
  from sections_in_slug_order
         [of "d_teams dashboard_bd" dashboard_bd "Some hdr" secs
            "showResources (allProjects (d_teams dashboard_bd))"
            entry_per_team False dashboard2_bd hdr' secs'
            "showResources (b_projects dashboard2_bd)"]
       r r' d k g k'
  show ?thesis
    by simp
qed

end
